theory Spec2Isabelle
  imports Main "HOL-Library.Multiset" "HOL-Library.Sublist"
begin

section \<open>Data model of the Traffic Lights page\<close>

text \<open>
  The page \<^verbatim>\<open>TrafficLights.js\<close> keeps a list of intersections, each with an ordered
  sequence of signal phases. The object literals of \<^verbatim>\<open>mockIntersections\<close> fix the fields.
  A duration is a JavaScript number that holds an integer (the slider moves in steps of
  5, the text field goes through \<^verbatim>\<open>parseInt\<close>), and \<open>duration\<close> is that integer; how numbers
  add is modelled with \<open>getTotalCycleTime\<close> below. The strings that the code only compares
  and writes (\<open>status\<close>, \<open>color\<close>, the identifier and name of a phase) are HOL strings. The
  \<^verbatim>\<open>Date\<close> of \<open>lastUpdated\<close> is kept as the ISO string it is built from.

  The identifier and the name of an intersection go through \<^verbatim>\<open>toLowerCase\<close> and
  \<^verbatim>\<open>includes\<close>, which work on the UTF-16 code units of a string, and so does the search
  string: these three are lists of code units. \<open>code_units\<close> gives the code units of a
  literal.
\<close>

type_synonym js_string = "nat list"

definition code_units :: "string \<Rightarrow> js_string" where
  "code_units s = map of_char s"

record phase =
  phase_id :: string
  phase_name :: string
  duration :: int
  active :: bool
  color :: string

record intersection =
  int_id :: js_string
  int_name :: js_string
  status :: string
  lastUpdated :: string
  phases :: "phase list"
  vehicleCount :: int
  avgWaitTime :: int

text \<open>The component state: one field per \<^verbatim>\<open>useState\<close> hook; \<^verbatim>\<open>null\<close> is \<open>None\<close>.\<close>

record tl_state =
  intersections :: "intersection list"
  loading :: bool
  searchTerm :: js_string
  selectedIntersection :: "intersection option"
  editDialogOpen :: bool
  editData :: "intersection option"
  autoRefresh :: bool

text \<open>Reading a property of \<^verbatim>\<open>null\<close> throws a \<^verbatim>\<open>TypeError\<close>.\<close>

datatype js_error = TypeError

subsection \<open>The mock data\<close>

definition mk_phase :: "string \<Rightarrow> string \<Rightarrow> int \<Rightarrow> bool \<Rightarrow> string \<Rightarrow> phase" where
  "mk_phase i n d a c =
     \<lparr>phase_id = i, phase_name = n, duration = d, active = a, color = c\<rparr>"

definition int_001 :: intersection where
  "int_001 =
     \<lparr>int_id = code_units ''int-001'',
      int_name = code_units ''MG Road & Brigade Road'', status = ''active'',
      lastUpdated = ''2023-06-15T10:30:00'',
      phases =
        [mk_phase ''north-south'' ''North-South'' 45 True ''green'',
         mk_phase ''east-west'' ''East-West'' 40 False ''red'',
         mk_phase ''pedestrian'' ''Pedestrian'' 20 False ''red''],
      vehicleCount = 124, avgWaitTime = 45\<rparr>"

definition int_002 :: intersection where
  "int_002 =
     \<lparr>int_id = code_units ''int-002'',
      int_name = code_units ''Indiranagar 100ft Road'', status = ''active'',
      lastUpdated = ''2023-06-15T10:32:15'',
      phases =
        [mk_phase ''north-south'' ''North-South'' 60 True ''green'',
         mk_phase ''east-west'' ''East-West'' 50 False ''red''],
      vehicleCount = 89, avgWaitTime = 30\<rparr>"

definition int_003 :: intersection where
  "int_003 =
     \<lparr>int_id = code_units ''int-003'',
      int_name = code_units ''Outer Ring Road & Marathahalli'',
      status = ''maintenance'', lastUpdated = ''2023-06-15T09:15:00'',
      phases =
        [mk_phase ''north-south'' ''North-South'' 30 False ''yellow'',
         mk_phase ''east-west'' ''East-West'' 30 False ''yellow''],
      vehicleCount = 0, avgWaitTime = 0\<rparr>"

definition int_004 :: intersection where
  "int_004 =
     \<lparr>int_id = code_units ''int-004'',
      int_name = code_units ''Koramangala 80ft Road'', status = ''inactive'',
      lastUpdated = ''2023-06-14T22:10:00'',
      phases =
        [mk_phase ''north-south'' ''North-South'' 40 False ''red'',
         mk_phase ''east-west'' ''East-West'' 40 True ''green''],
      vehicleCount = 0, avgWaitTime = 0\<rparr>"

definition mockIntersections :: "intersection list" where
  "mockIntersections = [int_001, int_002, int_003, int_004]"

section \<open>The JavaScript operations the page relies on\<close>

text \<open>
  \<^verbatim>\<open>Array.prototype.findIndex\<close> walks the array from index 0 and returns the first index
  whose element satisfies the predicate, or \<open>-1\<close>.
\<close>

fun findIndex_from :: "('a \<Rightarrow> bool) \<Rightarrow> int \<Rightarrow> 'a list \<Rightarrow> int" where
  "findIndex_from P k [] = - 1"
| "findIndex_from P k (x # xs) = (if P x then k else findIndex_from P (k + 1) xs)"

definition findIndex :: "('a \<Rightarrow> bool) \<Rightarrow> 'a list \<Rightarrow> int" where
  "findIndex P xs = findIndex_from P 0 xs"

text \<open>
  The remainder operator \<^verbatim>\<open>%\<close> on integral numbers truncates towards zero (the sign is
  the dividend's) and is \<^verbatim>\<open>NaN\<close>, here \<open>None\<close>, for the divisor 0.
\<close>

definition js_rem :: "int \<Rightarrow> int \<Rightarrow> int option" where
  "js_rem a n = (if n = 0 then None else Some (sgn a * (\<bar>a\<bar> mod \<bar>n\<bar>)))"

text \<open>
  Indexing \<^verbatim>\<open>xs[i]\<close> never throws on an array: an index that is \<^verbatim>\<open>NaN\<close>, negative or
  past the end reads \<^verbatim>\<open>undefined\<close>, here \<open>None\<close>.
\<close>

fun js_at :: "'a list \<Rightarrow> int option \<Rightarrow> 'a option" where
  "js_at xs None = None"
| "js_at xs (Some i) = (if 0 \<le> i \<and> i < int (length xs) then Some (xs ! nat i) else None)"

section \<open>Derivations over a phase sequence\<close>

text \<open>
  Numbers are IEEE-754 doubles. Every integer of magnitude up to \<open>2 ^ 53\<close> is a double;
  a larger integer is rounded to 53 significant bits, to the nearest double and to the even
  one of two equally near, and a result of magnitude \<open>2 ^ 1024\<close> or more is
  \<^verbatim>\<open>Infinity\<close>. \<open>to_double n\<close> is the double nearest to the integer \<open>n\<close>, or \<open>None\<close> when
  that is not a finite number. \<open>bit_length\<close> counts the binary digits of a positive integer.
\<close>

function bit_length :: "int \<Rightarrow> nat" where
  "bit_length n = (if n \<le> 0 then 0 else Suc (bit_length (n div 2)))"
  by pat_completeness auto
termination
  by (relation "measure nat") auto

declare bit_length.simps [simp del]

definition to_double :: "int \<Rightarrow> int option" where
  "to_double n =
     (let m = \<bar>n\<bar> in
      if m \<le> 2 ^ 53 then Some n
      else
        let e = bit_length m - 53;
            q = m div 2 ^ e;
            r = m mod 2 ^ e;
            half = 2 ^ (e - 1);
            q' = (if half < r \<or> (r = half \<and> odd q) then q + 1 else q)
        in if 2 ^ 1024 \<le> q' * 2 ^ e then None else Some (sgn n * (q' * 2 ^ e)))"

text \<open>
  \<^verbatim>\<open>total + phase.duration\<close>: the exact sum of two doubles, rounded. A total that is
  \<^verbatim>\<open>Infinity\<close> or \<^verbatim>\<open>NaN\<close> (\<open>None\<close>) stays so whatever finite number is added.
\<close>

fun js_add :: "int option \<Rightarrow> int \<Rightarrow> int option" where
  "js_add None d = None"
| "js_add (Some a) d = to_double (a + d)"

text \<open>
  \<^verbatim>\<open>phases.reduce((total, phase) => total + phase.duration, 0)\<close>: a left fold from 0.
\<close>

definition getTotalCycleTime :: "phase list \<Rightarrow> int option" where
  "getTotalCycleTime ps = foldl (\<lambda>total p. js_add total (duration p)) (Some 0) ps"

text \<open>
  \<^verbatim>\<open>phases.find(phase => phase.active) || phases[0]\<close>: a found phase is an object, hence
  truthy; only \<^verbatim>\<open>undefined\<close> falls through to \<^verbatim>\<open>phases[0]\<close>.
\<close>

definition getActivePhase :: "phase list \<Rightarrow> phase option" where
  "getActivePhase ps =
     (case List.find active ps of
        Some p \<Rightarrow> Some p
      | None \<Rightarrow> js_at ps (Some 0))"

text \<open>
  \<^verbatim>\<open>const activeIndex = phases.findIndex(phase => phase.active);\<close>
  \<^verbatim>\<open>return phases[(activeIndex + 1) % phases.length];\<close>
\<close>

definition getNextPhase :: "phase list \<Rightarrow> phase option" where
  "getNextPhase ps =
     (let activeIndex = findIndex active ps
      in js_at ps (js_rem (activeIndex + 1) (int (length ps))))"

section \<open>The edit dialog\<close>

text \<open>
  \<^verbatim>\<open>handleEdit\<close> opens the dialog on a copy of the chosen intersection: the draft.
\<close>

definition handleEdit :: "intersection \<Rightarrow> tl_state \<Rightarrow> tl_state" where
  "handleEdit i s =
     s\<lparr>selectedIntersection := Some i, editData := Some i, editDialogOpen := True\<rparr>"

text \<open>
  \<^verbatim>\<open>handleSave\<close> maps over the committed list, puts a copy of the draft in the place of
  every entry with the draft's id, and closes the dialog. With no draft (\<^verbatim>\<open>editData\<close> is
  \<^verbatim>\<open>null\<close>) the callback's \<^verbatim>\<open>editData.id\<close> throws as soon as it runs, that is, when the
  list has an entry.
\<close>

definition handleSave :: "tl_state \<Rightarrow> js_error + tl_state" where
  "handleSave s =
     (case editData s of
        None \<Rightarrow>
          (if intersections s = [] then Inr (s\<lparr>intersections := [], editDialogOpen := False\<rparr>)
           else Inl TypeError)
      | Some draft \<Rightarrow>
          Inr (s\<lparr>intersections :=
                   map (\<lambda>i. if int_id i = int_id draft then draft else i) (intersections s),
                 editDialogOpen := False\<rparr>))"

text \<open>
  \<^verbatim>\<open>handlePhaseChange(phaseId, field, value)\<close> writes \<^verbatim>\<open>{ ...phase, [field]: value }\<close>.
  The fields of a phase are typed here, so the property name and its new value travel
  together, one constructor per field of the data model; the dialog itself only ever sends
  \<^verbatim>\<open>'duration'\<close> with a number. \<open>field_name\<close> and \<open>field_value\<close> read the two arguments
  back, and \<open>get_prop\<close> is the property read \<^verbatim>\<open>phase[name]\<close> (\<open>None\<close> for \<^verbatim>\<open>undefined\<close>).
\<close>

datatype js_value = JString string | JNumber int | JBoolean bool

datatype phase_field =
    Field_id string
  | Field_name string
  | Field_duration int
  | Field_active bool
  | Field_color string

fun field_name :: "phase_field \<Rightarrow> string" where
  "field_name (Field_id v) = ''id''"
| "field_name (Field_name v) = ''name''"
| "field_name (Field_duration v) = ''duration''"
| "field_name (Field_active v) = ''active''"
| "field_name (Field_color v) = ''color''"

fun field_value :: "phase_field \<Rightarrow> js_value" where
  "field_value (Field_id v) = JString v"
| "field_value (Field_name v) = JString v"
| "field_value (Field_duration v) = JNumber v"
| "field_value (Field_active v) = JBoolean v"
| "field_value (Field_color v) = JString v"

definition get_prop :: "string \<Rightarrow> phase \<Rightarrow> js_value option" where
  "get_prop f p =
     (if f = ''id'' then Some (JString (phase_id p))
      else if f = ''name'' then Some (JString (phase_name p))
      else if f = ''duration'' then Some (JNumber (duration p))
      else if f = ''active'' then Some (JBoolean (active p))
      else if f = ''color'' then Some (JString (color p))
      else None)"

fun set_field :: "phase_field \<Rightarrow> phase \<Rightarrow> phase" where
  "set_field (Field_id v) p = p\<lparr>phase_id := v\<rparr>"
| "set_field (Field_name v) p = p\<lparr>phase_name := v\<rparr>"
| "set_field (Field_duration v) p = p\<lparr>duration := v\<rparr>"
| "set_field (Field_active v) p = p\<lparr>active := v\<rparr>"
| "set_field (Field_color v) p = p\<lparr>color := v\<rparr>"

text \<open>
  Both dialog handlers pass an updater \<^verbatim>\<open>prev => ({ ...prev, phases: prev.phases.map(...) })\<close>
  to \<^verbatim>\<open>setEditData\<close>; on \<^verbatim>\<open>prev = null\<close> the read \<^verbatim>\<open>prev.phases\<close> throws.
\<close>

definition handlePhaseChange :: "string \<Rightarrow> phase_field \<Rightarrow> tl_state \<Rightarrow> js_error + tl_state" where
  "handlePhaseChange phaseId fv s =
     (case editData s of
        None \<Rightarrow> Inl TypeError
      | Some prev \<Rightarrow>
          Inr (s\<lparr>editData := Some (prev\<lparr>phases :=
                 map (\<lambda>ph. if phase_id ph = phaseId then set_field fv ph else ph)
                   (phases prev)\<rparr>)\<rparr>))"

definition handleStatusChange :: "string \<Rightarrow> tl_state \<Rightarrow> js_error + tl_state" where
  "handleStatusChange st s =
     (case editData s of
        None \<Rightarrow> Inl TypeError
      | Some prev \<Rightarrow>
          Inr (s\<lparr>editData := Some (prev\<lparr>status := st,
                 phases :=
                   map (\<lambda>ph. ph\<lparr>color :=
                          if st = ''active'' then (if active ph then ''green'' else ''red'')
                          else ''yellow''\<rparr>)
                     (phases prev)\<rparr>)\<rparr>))"

section \<open>The search filter\<close>











section \<open>Example states\<close>

text \<open>
  The state once the mock data is loaded, the state after \<^verbatim>\<open>handleEdit\<close> on the second
  intersection, and two states about to be saved: one whose draft carries an edited
  duration, one whose draft carries an identifier that no committed intersection has.
\<close>

definition loaded :: tl_state where
  "loaded = \<lparr>intersections = mockIntersections, loading = False, searchTerm = [],
     selectedIntersection = None, editDialogOpen = False, editData = None, autoRefresh = True\<rparr>"

definition editing_002 :: tl_state where
  "editing_002 = handleEdit int_002 loaded"

definition draft_002 :: intersection where
  "draft_002 = int_002\<lparr>phases :=
     [mk_phase ''north-south'' ''North-South'' 60 True ''green'',
      mk_phase ''east-west'' ''East-West'' 55 False ''red'']\<rparr>"

definition saving_002 :: tl_state where
  "saving_002 = editing_002\<lparr>editData := Some draft_002\<rparr>"

definition draft_999 :: intersection where
  "draft_999 = int_002\<lparr>int_id := code_units ''int-999''\<rparr>"

definition saving_999 :: tl_state where
  "saving_999 = editing_002\<lparr>editData := Some draft_999\<rparr>"





section \<open>Facts about the array operations\<close>

lemma findIndex_from_first:
  "\<forall>q\<in>set pre. \<not> P q \<Longrightarrow> P p \<Longrightarrow>
     findIndex_from P k (pre @ p # post) = k + int (length pre)"
  by (induction pre arbitrary: k) auto

lemma findIndex_from_none:
  "\<forall>q\<in>set xs. \<not> P q \<Longrightarrow> findIndex_from P k xs = - 1"
  by (induction xs arbitrary: k) auto

lemma findIndex_first:
  "\<forall>q\<in>set pre. \<not> P q \<Longrightarrow> P p \<Longrightarrow> findIndex P (pre @ p # post) = int (length pre)"
  by (simp add: findIndex_def findIndex_from_first)

lemma findIndex_none: "\<forall>q\<in>set xs. \<not> P q \<Longrightarrow> findIndex P xs = - 1"
  by (simp add: findIndex_def findIndex_from_none)

lemma js_rem_nonneg:
  assumes "0 \<le> a" and "0 < n"
  shows "js_rem a n = Some (a mod n)"
proof (cases "a = 0")
  case True
  with assms show ?thesis by (simp add: js_rem_def)
next
  case False
  with assms have "sgn a = 1" by simp
  with assms show ?thesis by (simp add: js_rem_def)
qed

lemma js_at_mod:
  assumes "xs \<noteq> []"
  shows "js_at xs (Some (int m mod int (length xs))) = Some (xs ! (m mod length xs))"
proof -
  have "int m mod int (length xs) = int (m mod length xs)"
    by (simp add: zmod_int)
  moreover have "m mod length xs < length xs"
    using assms by simp
  ultimately show ?thesis by simp
qed

lemma next_index:
  assumes "xs \<noteq> []"
  shows "js_at xs (js_rem (int m) (int (length xs))) = Some (xs ! (m mod length xs))"
proof -
  have "js_rem (int m) (int (length xs)) = Some (int m mod int (length xs))"
    using assms by (intro js_rem_nonneg) simp_all
  then show ?thesis using js_at_mod [OF assms] by simp
qed

lemma getNextPhase_first_active:
  assumes "\<forall>q\<in>set pre. \<not> active q" and "active p"
  shows "getNextPhase (pre @ p # post) =
           Some ((pre @ p # post) ! ((length pre + 1) mod length (pre @ p # post)))"
proof -
  let ?ps = "pre @ p # post"
  have idx: "findIndex active ?ps + 1 = int (length pre + 1)"
    using assms by (simp add: findIndex_first)
  have "getNextPhase ?ps = js_at ?ps (js_rem (int (length pre + 1)) (int (length ?ps)))"
    unfolding getNextPhase_def Let_def idx ..
  also have "\<dots> = Some (?ps ! ((length pre + 1) mod length ?ps))"
    by (rule next_index) simp
  finally show ?thesis .
qed

lemma getNextPhase_no_active:
  assumes "ps \<noteq> []" and "\<forall>q\<in>set ps. \<not> active q"
  shows "getNextPhase ps = Some (ps ! 0)"
proof -
  have idx: "findIndex active ps + 1 = int 0"
    using assms by (simp add: findIndex_none)
  have "getNextPhase ps = js_at ps (js_rem (int 0) (int (length ps)))"
    unfolding getNextPhase_def Let_def idx ..
  also have "\<dots> = Some (ps ! (0 mod length ps))"
    using assms(1) by (rule next_index)
  finally show ?thesis by simp
qed

lemma getNextPhase_empty: "getNextPhase [] = None"
  by (simp add: getNextPhase_def findIndex_def js_rem_def)

lemma find_first_active:
  "\<forall>q\<in>set pre. \<not> P q \<Longrightarrow> P p \<Longrightarrow> List.find P (pre @ p # post) = Some p"
  by (induction pre) auto

lemma find_no_active: "\<forall>q\<in>set xs. \<not> P q \<Longrightarrow> List.find P xs = None"
  by (simp add: find_None_iff)

lemma getActivePhase_first_active:
  "\<forall>q\<in>set pre. \<not> active q \<Longrightarrow> active p \<Longrightarrow> getActivePhase (pre @ p # post) = Some p"
  by (simp add: getActivePhase_def find_first_active)

lemma getActivePhase_no_active:
  "ps \<noteq> [] \<Longrightarrow> \<forall>q\<in>set ps. \<not> active q \<Longrightarrow> getActivePhase ps = Some (ps ! 0)"
  by (simp add: getActivePhase_def find_no_active)

lemma getActivePhase_member:
  assumes "ps \<noteq> []"
  shows "\<exists>p. getActivePhase ps = Some p \<and> p \<in> set ps"
proof (cases "List.find active ps")
  case None
  with assms show ?thesis by (simp add: getActivePhase_def)
next
  case (Some p)
  then have "p \<in> set ps"
    by (auto simp: find_Some_iff)
  with Some show ?thesis by (simp add: getActivePhase_def)
qed

lemma to_double_exact: "\<bar>n\<bar> \<le> 2 ^ 53 \<Longrightarrow> to_double n = Some n"
  by (simp add: to_double_def Let_def)

lemma foldl_js_add_exact:
  "\<bar>a\<bar> + sum_list (map (\<lambda>p. \<bar>duration p\<bar>) ps) \<le> 2 ^ 53 \<Longrightarrow>
     foldl (\<lambda>total p. js_add total (duration p)) (Some a) ps
       = Some (a + sum_list (map duration ps))"
proof (induction ps arbitrary: a)
  case Nil
  then show ?case by simp
next
  case (Cons p ps)
  have nonneg: "0 \<le> sum_list (map (\<lambda>p. \<bar>duration p\<bar>) ps)"
    by (rule sum_list_nonneg) auto
  have step: "\<bar>a + duration p\<bar> \<le> 2 ^ 53"
    using Cons.prems nonneg by simp
  have rest: "\<bar>a + duration p\<bar> + sum_list (map (\<lambda>p. \<bar>duration p\<bar>) ps) \<le> 2 ^ 53"
    using Cons.prems by simp
  show ?case
    using Cons.IH [OF rest] by (simp add: to_double_exact [OF step] add.assoc)
qed

lemma getTotalCycleTime_exact:
  "sum_list (map (\<lambda>p. \<bar>duration p\<bar>) ps) \<le> 2 ^ 53 \<Longrightarrow>
     getTotalCycleTime ps = Some (sum_list (map duration ps))"
  using foldl_js_add_exact [of 0 ps] by (simp add: getTotalCycleTime_def)

lemma sum_list_map_mset:
  fixes f :: "'a \<Rightarrow> int"
  assumes "mset xs = mset ys"
  shows "sum_list (map f xs) = sum_list (map f ys)"
proof -
  have "sum_list (map f zs) = sum_mset (image_mset f (mset zs))" for zs
    by (metis mset_map sum_mset_sum_list)
  then show ?thesis by (simp add: assms)
qed

section \<open>The next phase\<close>

text \<open>
  Claim C1. \<open>getNextPhase\<close> returns the phase at index \<open>(i + 1) mod length\<close>, where \<open>i\<close> is
  the index of the first phase whose active flag is true: when the sequence splits as
  \<open>pre @ p # post\<close> with no active phase in \<open>pre\<close> and \<open>p\<close> active, \<open>i\<close> is \<open>length pre\<close>.
  When no phase is active, \<open>findIndex\<close> gives \<open>-1\<close> and the result is the phase at index 0
  of a non-empty sequence. In particular a 2-phase sequence whose phase 0 is active yields
  phase 1, and a 3-phase sequence whose active phase is phase 2 yields phase 0. On the empty
  sequence the index is \<^verbatim>\<open>0 % 0\<close>, which is \<^verbatim>\<open>NaN\<close>, there is no phase to return and the
  result is \<^verbatim>\<open>undefined\<close>.
\<close>

theorem getNextPhase_round_robin:
  "(ps = pre @ p # post \<and> (\<forall>q\<in>set pre. \<not> active q) \<and> active p \<longrightarrow>
      getNextPhase ps = Some (ps ! ((length pre + 1) mod length ps)))
   \<and> (ps \<noteq> [] \<and> (\<forall>q\<in>set ps. \<not> active q) \<longrightarrow>
      getNextPhase ps = Some (ps ! 0))
   \<and> (active a0 \<longrightarrow> getNextPhase [a0, a1] = Some a1)
   \<and> (\<not> active b0 \<and> \<not> active b1 \<and> active b2 \<longrightarrow> getNextPhase [b0, b1, b2] = Some b0)
   \<and> getNextPhase [] = None"
proof (intro conjI impI)
  assume "ps = pre @ p # post \<and> (\<forall>q\<in>set pre. \<not> active q) \<and> active p"
  then show "getNextPhase ps = Some (ps ! ((length pre + 1) mod length ps))"
    using getNextPhase_first_active [of pre p post] by simp
next
  assume "ps \<noteq> [] \<and> (\<forall>q\<in>set ps. \<not> active q)"
  then show "getNextPhase ps = Some (ps ! 0)"
    by (simp add: getNextPhase_no_active)
next
  assume "active a0"
  then show "getNextPhase [a0, a1] = Some a1"
    using getNextPhase_first_active [of "[]" a0 "[a1]"] by simp
next
  assume "\<not> active b0 \<and> \<not> active b1 \<and> active b2"
  then show "getNextPhase [b0, b1, b2] = Some b0"
    using getNextPhase_first_active [of "[b0, b1]" b2 "[]"] by simp
next
  show "getNextPhase [] = None"
    by (rule getNextPhase_empty)
qed

theorem getNextPhase_round_robin_witness:
  "getNextPhase (phases int_004) = Some (mk_phase ''north-south'' ''North-South'' 40 False ''red'')
   \<and> getNextPhase (phases int_003) = Some (mk_phase ''north-south'' ''North-South'' 30 False ''yellow'')
   \<and> getNextPhase (phases int_002) = Some (mk_phase ''east-west'' ''East-West'' 50 False ''red'')
   \<and> getNextPhase [mk_phase ''a'' ''A'' 10 False ''red'', mk_phase ''b'' ''B'' 20 False ''red'',
        mk_phase ''c'' ''C'' 30 True ''green''] = Some (mk_phase ''a'' ''A'' 10 False ''red'')"
  using getNextPhase_round_robin [where ps = "phases int_004"
      and pre = "[mk_phase ''north-south'' ''North-South'' 40 False ''red'']"
      and p = "mk_phase ''east-west'' ''East-West'' 40 True ''green''" and post = "[]"
      and ?a0.0 = "mk_phase ''north-south'' ''North-South'' 60 True ''green''"
      and ?a1.0 = "mk_phase ''east-west'' ''East-West'' 50 False ''red''"
      and ?b0.0 = "mk_phase ''a'' ''A'' 10 False ''red''"
      and ?b1.0 = "mk_phase ''b'' ''B'' 20 False ''red''"
      and ?b2.0 = "mk_phase ''c'' ''C'' 30 True ''green''"]
    getNextPhase_round_robin [where ps = "phases int_003"]
  by (simp add: int_004_def int_003_def int_002_def mk_phase_def)

text \<open>
  Claim C9. On a sequence of one phase, \<open>getNextPhase\<close> returns that phase, whether its
  active flag is true (index \<^verbatim>\<open>(0 + 1) % 1\<close>) or false (index \<^verbatim>\<open>(-1 + 1) % 1\<close>).
\<close>

theorem getNextPhase_singleton: "getNextPhase [p] = Some p"
proof (cases "active p")
  case True
  then show ?thesis
    using getNextPhase_first_active [of "[]" p "[]"] by simp
next
  case False
  then show ?thesis
    using getNextPhase_no_active [of "[p]"] by simp
qed

section \<open>The active phase\<close>

text \<open>
  Claim C2. On a non-empty phase sequence \<open>getActivePhase\<close> always returns a phase of the
  sequence: the first phase whose active flag is true, and the first phase of the sequence
  when no phase is active.
\<close>

theorem getActivePhase_first_or_fallback:
  assumes "ps \<noteq> []"
  shows "(\<exists>r. getActivePhase ps = Some r \<and> r \<in> set ps)
    \<and> (ps = pre @ p # post \<and> (\<forall>q\<in>set pre. \<not> active q) \<and> active p \<longrightarrow>
         getActivePhase ps = Some p)
    \<and> ((\<forall>q\<in>set ps. \<not> active q) \<longrightarrow> getActivePhase ps = Some (hd ps))"
proof (intro conjI impI)
  show "\<exists>r. getActivePhase ps = Some r \<and> r \<in> set ps"
    using assms by (rule getActivePhase_member)
next
  assume "ps = pre @ p # post \<and> (\<forall>q\<in>set pre. \<not> active q) \<and> active p"
  then show "getActivePhase ps = Some p"
    by (simp add: getActivePhase_first_active)
next
  assume "\<forall>q\<in>set ps. \<not> active q"
  with assms have "getActivePhase ps = Some (ps ! 0)"
    by (rule getActivePhase_no_active)
  with assms show "getActivePhase ps = Some (hd ps)"
    by (simp add: hd_conv_nth)
qed

theorem getActivePhase_first_or_fallback_witness:
  "getActivePhase (phases int_004) = Some (mk_phase ''east-west'' ''East-West'' 40 True ''green'')
   \<and> getActivePhase (phases int_003) = Some (mk_phase ''north-south'' ''North-South'' 30 False ''yellow'')"
  using getActivePhase_first_or_fallback [where ps = "phases int_004"
      and pre = "[mk_phase ''north-south'' ''North-South'' 40 False ''red'']"
      and p = "mk_phase ''east-west'' ''East-West'' 40 True ''green''" and post = "[]"]
    getActivePhase_first_or_fallback [where ps = "phases int_003"]
  by (simp add: int_004_def int_003_def mk_phase_def)

text \<open>
  Claim C10. When more than one phase is active (\<open>p\<close> is the first active phase and some
  phase after it is active too), both results are determined by the first active phase:
  \<open>getActivePhase\<close> returns \<open>p\<close>, and \<open>getNextPhase\<close> returns the phase at index
  \<open>(i + 1) mod length\<close> for the index \<open>i = length pre\<close> of \<open>p\<close>. The phases after \<open>p\<close> have no
  effect: replacing them by any other phases \<open>post'\<close>, as many as before, leaves the active
  phase and the index of the next phase as they were.
\<close>

theorem first_active_phase_decides:
  assumes "\<forall>q\<in>set pre. \<not> active q" and "active p" and "\<exists>q\<in>set post. active q"
  shows "getActivePhase (pre @ p # post) = Some p
    \<and> getNextPhase (pre @ p # post) =
        Some ((pre @ p # post) ! ((length pre + 1) mod length (pre @ p # post)))
    \<and> (length post' = length post \<longrightarrow>
         getActivePhase (pre @ p # post') = Some p
         \<and> getNextPhase (pre @ p # post') =
             Some ((pre @ p # post') ! ((length pre + 1) mod length (pre @ p # post))))"
proof (intro conjI impI)
  show "getActivePhase (pre @ p # post) = Some p"
    using assms(1,2) by (rule getActivePhase_first_active)
  show "getNextPhase (pre @ p # post) =
        Some ((pre @ p # post) ! ((length pre + 1) mod length (pre @ p # post)))"
    using assms(1,2) by (rule getNextPhase_first_active)
next
  assume "length post' = length post"
  show "getActivePhase (pre @ p # post') = Some p"
    using assms(1,2) by (rule getActivePhase_first_active)
next
  assume len: "length post' = length post"
  have "getNextPhase (pre @ p # post') =
        Some ((pre @ p # post') ! ((length pre + 1) mod length (pre @ p # post')))"
    using assms(1,2) by (rule getNextPhase_first_active)
  with len show "getNextPhase (pre @ p # post') =
        Some ((pre @ p # post') ! ((length pre + 1) mod length (pre @ p # post)))"
    by simp
qed

theorem first_active_phase_decides_witness:
  "getActivePhase
     [mk_phase ''a'' ''A'' 10 False ''red'', mk_phase ''b'' ''B'' 20 True ''green'',
      mk_phase ''c'' ''C'' 30 True ''green'', mk_phase ''d'' ''D'' 40 True ''green'']
     = Some (mk_phase ''b'' ''B'' 20 True ''green'')
   \<and> getNextPhase
     [mk_phase ''a'' ''A'' 10 False ''red'', mk_phase ''b'' ''B'' 20 True ''green'',
      mk_phase ''c'' ''C'' 30 True ''green'', mk_phase ''d'' ''D'' 40 True ''green'']
     = Some (mk_phase ''c'' ''C'' 30 True ''green'')
   \<and> getActivePhase
     [mk_phase ''a'' ''A'' 10 False ''red'', mk_phase ''b'' ''B'' 20 True ''green'',
      mk_phase ''c'' ''C'' 30 False ''red'', mk_phase ''d'' ''D'' 40 False ''red'']
     = Some (mk_phase ''b'' ''B'' 20 True ''green'')
   \<and> getNextPhase
     [mk_phase ''a'' ''A'' 10 False ''red'', mk_phase ''b'' ''B'' 20 True ''green'',
      mk_phase ''c'' ''C'' 30 False ''red'', mk_phase ''d'' ''D'' 40 False ''red'']
     = Some (mk_phase ''c'' ''C'' 30 False ''red'')"
  using first_active_phase_decides [where pre = "[mk_phase ''a'' ''A'' 10 False ''red'']"
      and p = "mk_phase ''b'' ''B'' 20 True ''green''"
      and post = "[mk_phase ''c'' ''C'' 30 True ''green'', mk_phase ''d'' ''D'' 40 True ''green'']"
      and post' = "[mk_phase ''c'' ''C'' 30 False ''red'', mk_phase ''d'' ''D'' 40 False ''red'']"]
  by (simp add: mk_phase_def)

section \<open>The total cycle time\<close>

text \<open>
  Claim C5, as amended. For a phase sequence whose durations have absolute values that sum
  to at most \<open>2 ^ 53\<close>, as all durations of the dialog's range of 5 to 120 seconds do,
  \<open>getTotalCycleTime\<close> is the sum of the durations of all phases, and a sequence with the
  same phases in any other order (equal as a multiset) has the same total. Durations 45,
  40, 20 give 105.
\<close>

theorem getTotalCycleTime_order_independent:
  assumes "sum_list (map (\<lambda>p. \<bar>duration p\<bar>) ps) \<le> 2 ^ 53"
  shows "getTotalCycleTime ps = Some (sum_list (map duration ps))
   \<and> (mset ps' = mset ps \<longrightarrow> getTotalCycleTime ps' = getTotalCycleTime ps)
   \<and> (map duration qs = [45, 40, 20] \<longrightarrow> getTotalCycleTime qs = Some 105)"
proof (intro conjI impI)
  show "getTotalCycleTime ps = Some (sum_list (map duration ps))"
    using assms by (rule getTotalCycleTime_exact)
next
  assume eq: "mset ps' = mset ps"
  then have "sum_list (map (\<lambda>p. \<bar>duration p\<bar>) ps') \<le> 2 ^ 53"
    using assms sum_list_map_mset [of ps' ps "\<lambda>p. \<bar>duration p\<bar>"] by simp
  then have "getTotalCycleTime ps' = Some (sum_list (map duration ps'))"
    by (rule getTotalCycleTime_exact)
  also have "\<dots> = Some (sum_list (map duration ps))"
    using eq sum_list_map_mset [of ps' ps duration] by simp
  also have "\<dots> = getTotalCycleTime ps"
    using assms by (simp add: getTotalCycleTime_exact)
  finally show "getTotalCycleTime ps' = getTotalCycleTime ps" .
next
  assume d: "map duration qs = [45, 40, 20]"
  then obtain a b c where qs: "qs = [a, b, c]"
    and "duration a = 45" "duration b = 40" "duration c = 20"
    by (auto simp: map_eq_Cons_conv)
  then have "sum_list (map (\<lambda>p. \<bar>duration p\<bar>) qs) \<le> 2 ^ 53"
    by simp
  then have "getTotalCycleTime qs = Some (sum_list (map duration qs))"
    by (rule getTotalCycleTime_exact)
  with d show "getTotalCycleTime qs = Some 105"
    by simp
qed

theorem getTotalCycleTime_order_independent_witness:
  "getTotalCycleTime (phases int_001) = Some 105
   \<and> getTotalCycleTime
       [mk_phase ''pedestrian'' ''Pedestrian'' 20 False ''red'',
        mk_phase ''north-south'' ''North-South'' 45 True ''green'',
        mk_phase ''east-west'' ''East-West'' 40 False ''red''] = getTotalCycleTime (phases int_001)"
proof -
  have bound: "sum_list (map (\<lambda>p. \<bar>duration p\<bar>) (phases int_001)) \<le> 2 ^ 53"
    by (simp add: int_001_def mk_phase_def)
  show ?thesis
    using getTotalCycleTime_order_independent [OF bound, where qs = "phases int_001"
      and ps' = "[mk_phase ''pedestrian'' ''Pedestrian'' 20 False ''red'',
        mk_phase ''north-south'' ''North-South'' 45 True ''green'',
        mk_phase ''east-west'' ''East-West'' 40 False ''red'']"]
    by (simp add: int_001_def mk_phase_def)
qed

text \<open>
  As the claim was written, for every phase sequence, it fails: the text field accepts
  any integer, and above \<open>2 ^ 53\<close> a sum is rounded. With the durations \<open>2 ^ 53\<close>, 1, 1 the
  total is \<open>2 ^ 53\<close>, which is not the sum, and with the same phases in the order 1, 1,
  \<open>2 ^ 53\<close> it is \<open>2 ^ 53 + 2\<close>.
\<close>

theorem getTotalCycleTime_rounding_counterexample:
  "mset [mk_phase ''a'' ''A'' 1 False ''red'', mk_phase ''b'' ''B'' 1 False ''red'',
         mk_phase ''c'' ''C'' 9007199254740992 True ''green'']
     = mset [mk_phase ''c'' ''C'' 9007199254740992 True ''green'',
         mk_phase ''a'' ''A'' 1 False ''red'', mk_phase ''b'' ''B'' 1 False ''red'']
   \<and> getTotalCycleTime
        [mk_phase ''c'' ''C'' 9007199254740992 True ''green'',
         mk_phase ''a'' ''A'' 1 False ''red'', mk_phase ''b'' ''B'' 1 False ''red'']
       = Some 9007199254740992
   \<and> getTotalCycleTime
        [mk_phase ''a'' ''A'' 1 False ''red'', mk_phase ''b'' ''B'' 1 False ''red'',
         mk_phase ''c'' ''C'' 9007199254740992 True ''green'']
       = Some 9007199254740994
   \<and> sum_list (map duration
        [mk_phase ''c'' ''C'' 9007199254740992 True ''green'',
         mk_phase ''a'' ''A'' 1 False ''red'', mk_phase ''b'' ''B'' 1 False ''red''])
       = 9007199254740994"
proof (intro conjI)
  show "mset [mk_phase ''a'' ''A'' 1 False ''red'', mk_phase ''b'' ''B'' 1 False ''red'',
         mk_phase ''c'' ''C'' 9007199254740992 True ''green'']
     = mset [mk_phase ''c'' ''C'' 9007199254740992 True ''green'',
         mk_phase ''a'' ''A'' 1 False ''red'', mk_phase ''b'' ''B'' 1 False ''red'']"
    by simp
  show "getTotalCycleTime
        [mk_phase ''c'' ''C'' 9007199254740992 True ''green'',
         mk_phase ''a'' ''A'' 1 False ''red'', mk_phase ''b'' ''B'' 1 False ''red'']
       = Some 9007199254740992"
    by code_simp
  show "getTotalCycleTime
        [mk_phase ''a'' ''A'' 1 False ''red'', mk_phase ''b'' ''B'' 1 False ''red'',
         mk_phase ''c'' ''C'' 9007199254740992 True ''green'']
       = Some 9007199254740994"
    by code_simp
  show "sum_list (map duration
        [mk_phase ''c'' ''C'' 9007199254740992 True ''green'',
         mk_phase ''a'' ''A'' 1 False ''red'', mk_phase ''b'' ''B'' 1 False ''red''])
       = 9007199254740994"
    by (simp add: mk_phase_def)
qed

section \<open>Facts about the handlers and the filter\<close>

lemma editing_002_draft: "editData editing_002 = Some int_002"
  by (simp add: editing_002_def handleEdit_def)

lemma map_unmatched: "\<forall>x\<in>set xs. \<not> P x \<Longrightarrow> map (\<lambda>x. if P x then f x else x) xs = xs"
  by (induction xs) simp_all








section \<open>Changing the status\<close>

text \<open>
  Claim C3. With a draft \<open>d\<close> in the dialog, \<open>handleStatusChange\<close> sets the draft's status to
  the new value and recomputes the colour of every phase from the new status and that
  phase's active flag alone, keeping the phase's other fields: for the status
  \<^verbatim>\<open>'active'\<close> green when the phase is active and red otherwise, for every other status,
  \<^verbatim>\<open>'inactive'\<close> and \<^verbatim>\<open>'maintenance'\<close> among them, yellow for every phase. On phases with
  active flags true, false the colours become green, red for \<^verbatim>\<open>'active'\<close> and yellow,
  yellow for \<^verbatim>\<open>'maintenance'\<close>.
\<close>

theorem handleStatusChange_recolors:
  assumes "editData s = Some d"
  shows "\<exists>d'. handleStatusChange st s = Inr (s\<lparr>editData := Some d'\<rparr>)
    \<and> status d' = st
    \<and> length (phases d') = length (phases d)
    \<and> (\<forall>k<length (phases d).
          color (phases d' ! k) =
            (if st = ''active'' then (if active (phases d ! k) then ''green'' else ''red'')
             else ''yellow'')
          \<and> phases d' ! k = (phases d ! k)\<lparr>color := color (phases d' ! k)\<rparr>)
    \<and> (st = ''inactive'' \<or> st = ''maintenance'' \<longrightarrow>
          (\<forall>q\<in>set (phases d'). color q = ''yellow''))
    \<and> (map active (phases d) = [True, False] \<longrightarrow>
          (st = ''active'' \<longrightarrow> map color (phases d') = [''green'', ''red''])
          \<and> (st = ''maintenance'' \<longrightarrow> map color (phases d') = [''yellow'', ''yellow'']))"
proof -
  define recolor where "recolor = (\<lambda>ph::phase. ph\<lparr>color :=
      if st = ''active'' then (if active ph then ''green'' else ''red'') else ''yellow''\<rparr>)"
  define d' where "d' = d\<lparr>status := st, phases := map recolor (phases d)\<rparr>"
  have run: "handleStatusChange st s = Inr (s\<lparr>editData := Some d'\<rparr>)"
    using assms by (simp add: handleStatusChange_def d'_def recolor_def)
  have ph: "phases d' = map recolor (phases d)"
    by (simp add: d'_def)
  have st: "status d' = st"
    by (simp add: d'_def)
  have len: "length (phases d') = length (phases d)"
    by (simp add: ph)
  have each: "\<forall>k<length (phases d).
          color (phases d' ! k) =
            (if st = ''active'' then (if active (phases d ! k) then ''green'' else ''red'')
             else ''yellow'')
          \<and> phases d' ! k = (phases d ! k)\<lparr>color := color (phases d' ! k)\<rparr>"
    by (simp add: ph recolor_def)
  have yellow: "st = ''inactive'' \<or> st = ''maintenance'' \<longrightarrow>
          (\<forall>q\<in>set (phases d'). color q = ''yellow'')"
    by (auto simp: ph recolor_def)
  have ex: "map active (phases d) = [True, False] \<longrightarrow>
          (st = ''active'' \<longrightarrow> map color (phases d') = [''green'', ''red''])
          \<and> (st = ''maintenance'' \<longrightarrow> map color (phases d') = [''yellow'', ''yellow''])"
  proof
    assume a: "map active (phases d) = [True, False]"
    then obtain p0 p1 where d: "phases d = [p0, p1]" and "active p0" and "\<not> active p1"
      by (auto simp: map_eq_Cons_conv)
    then show "(st = ''active'' \<longrightarrow> map color (phases d') = [''green'', ''red''])
          \<and> (st = ''maintenance'' \<longrightarrow> map color (phases d') = [''yellow'', ''yellow''])"
      by (simp add: ph recolor_def)
  qed
  show ?thesis
    by (rule exI [of _ d'], intro conjI) (fact run st len each yellow ex)+
qed

theorem handleStatusChange_recolors_witness:
  "(\<exists>d'. handleStatusChange ''maintenance'' editing_002 = Inr (editing_002\<lparr>editData := Some d'\<rparr>)
      \<and> status d' = ''maintenance'' \<and> map color (phases d') = [''yellow'', ''yellow''])
   \<and> (\<exists>d'. handleStatusChange ''active'' editing_002 = Inr (editing_002\<lparr>editData := Some d'\<rparr>)
      \<and> status d' = ''active'' \<and> map color (phases d') = [''green'', ''red''])"
proof -
  have a: "map active (phases int_002) = [True, False]"
    by (simp add: int_002_def mk_phase_def)
  have m: "\<exists>d'. handleStatusChange ''maintenance'' editing_002 = Inr (editing_002\<lparr>editData := Some d'\<rparr>)
      \<and> status d' = ''maintenance'' \<and> map color (phases d') = [''yellow'', ''yellow'']"
    using handleStatusChange_recolors [OF editing_002_draft, of "''maintenance''"] a
    by (elim exE conjE) (rule exI, simp)
  have g: "\<exists>d'. handleStatusChange ''active'' editing_002 = Inr (editing_002\<lparr>editData := Some d'\<rparr>)
      \<and> status d' = ''active'' \<and> map color (phases d') = [''green'', ''red'']"
    using handleStatusChange_recolors [OF editing_002_draft, of "''active''"] a
    by (elim exE conjE) (rule exI, simp)
  from m g show ?thesis ..
qed

section \<open>Committing the draft\<close>

text \<open>
  Claim C4. With a draft in the dialog, \<open>handleSave\<close> yields a committed list of the same
  length in which, position by position, an entry whose identifier equals the draft's is
  the draft and every other entry is the entry that was there before.
\<close>

theorem handleSave_replaces_matching:
  assumes "editData s = Some draft"
  shows "\<exists>s'. handleSave s = Inr s'
    \<and> length (intersections s') = length (intersections s)
    \<and> (\<forall>k<length (intersections s).
          (int_id (intersections s ! k) = int_id draft \<longrightarrow> intersections s' ! k = draft)
          \<and> (int_id (intersections s ! k) \<noteq> int_id draft \<longrightarrow>
               intersections s' ! k = intersections s ! k))"
proof -
  define s' where "s' = s\<lparr>intersections :=
      map (\<lambda>i. if int_id i = int_id draft then draft else i) (intersections s),
      editDialogOpen := False\<rparr>"
  have run: "handleSave s = Inr s'"
    using assms by (simp add: handleSave_def s'_def)
  have xs: "intersections s' =
      map (\<lambda>i. if int_id i = int_id draft then draft else i) (intersections s)"
    by (simp add: s'_def)
  have len: "length (intersections s') = length (intersections s)"
    by (simp add: xs)
  have each: "\<forall>k<length (intersections s).
          (int_id (intersections s ! k) = int_id draft \<longrightarrow> intersections s' ! k = draft)
          \<and> (int_id (intersections s ! k) \<noteq> int_id draft \<longrightarrow>
               intersections s' ! k = intersections s ! k)"
    by (simp add: xs)
  show ?thesis
    by (rule exI [of _ s'], intro conjI) (fact run len each)+
qed

theorem handleSave_replaces_matching_witness:
  "\<exists>s'. handleSave saving_002 = Inr s' \<and> length (intersections s') = 4
     \<and> intersections s' ! 0 = int_001 \<and> intersections s' ! 1 = draft_002
     \<and> intersections s' ! 2 = int_003 \<and> intersections s' ! 3 = int_004"
proof -
  have h: "editData saving_002 = Some draft_002"
    by (simp add: saving_002_def)
  have xs: "intersections saving_002 = [int_001, int_002, int_003, int_004]"
    by (simp add: saving_002_def editing_002_def handleEdit_def loaded_def mockIntersections_def)
  have ids: "int_id int_001 \<noteq> int_id draft_002" "int_id int_002 = int_id draft_002"
    "int_id int_003 \<noteq> int_id draft_002" "int_id int_004 \<noteq> int_id draft_002"
    by (simp_all add: draft_002_def int_001_def int_002_def int_003_def int_004_def
        code_units_def)
  from handleSave_replaces_matching [OF h] obtain s' where
    *: "handleSave saving_002 = Inr s'
    \<and> length (intersections s') = length (intersections saving_002)
    \<and> (\<forall>k<length (intersections saving_002).
          (int_id (intersections saving_002 ! k) = int_id draft_002 \<longrightarrow> intersections s' ! k = draft_002)
          \<and> (int_id (intersections saving_002 ! k) \<noteq> int_id draft_002 \<longrightarrow>
               intersections s' ! k = intersections saving_002 ! k))" ..
  then have each: "k < 4 \<Longrightarrow>
      (int_id ([int_001, int_002, int_003, int_004] ! k) = int_id draft_002 \<longrightarrow> intersections s' ! k = draft_002)
      \<and> (int_id ([int_001, int_002, int_003, int_004] ! k) \<noteq> int_id draft_002 \<longrightarrow>
               intersections s' ! k = [int_001, int_002, int_003, int_004] ! k)" for k
    by (simp add: xs)
  have "intersections s' ! 0 = int_001" using each [of 0] ids by simp
  moreover have "intersections s' ! 1 = draft_002" using each [of 1] ids by simp
  moreover have "intersections s' ! 2 = int_003" using each [of 2] ids by simp
  moreover have "intersections s' ! 3 = int_004" using each [of 3] ids by simp
  moreover have "length (intersections s') = 4" using * by (simp add: xs)
  moreover have "handleSave saving_002 = Inr s'" using * by simp
  ultimately show ?thesis by (intro exI [of _ s'] conjI)
qed

section \<open>Editing a phase\<close>

text \<open>
  Claim C6. With a draft \<open>d\<close> in the dialog, \<open>handlePhaseChange phaseId\<close> keeps every field
  of the draft but its phases (identifier, name, status, timestamp and the two counters),
  keeps the number and order of the phases, leaves every phase with another identifier
  as it was, and in a phase with the identifier \<open>phaseId\<close> replaces the named field only:
  reading any property of the edited phase gives the new value for the named field and
  the old value for every other one.
\<close>

theorem handlePhaseChange_frame:
  assumes "editData s = Some d"
  shows "\<exists>d'. handlePhaseChange phaseId fv s = Inr (s\<lparr>editData := Some d'\<rparr>)
    \<and> d' = d\<lparr>phases := phases d'\<rparr>
    \<and> int_id d' = int_id d \<and> int_name d' = int_name d \<and> status d' = status d
    \<and> lastUpdated d' = lastUpdated d \<and> vehicleCount d' = vehicleCount d
    \<and> avgWaitTime d' = avgWaitTime d
    \<and> length (phases d') = length (phases d)
    \<and> (\<forall>k<length (phases d).
          (phase_id (phases d ! k) \<noteq> phaseId \<longrightarrow> phases d' ! k = phases d ! k)
          \<and> (phase_id (phases d ! k) = phaseId \<longrightarrow>
               (\<forall>f. get_prop f (phases d' ! k) =
                  (if f = field_name fv then Some (field_value fv)
                   else get_prop f (phases d ! k)))))"
proof -
  define d' where "d' = d\<lparr>phases :=
      map (\<lambda>ph. if phase_id ph = phaseId then set_field fv ph else ph) (phases d)\<rparr>"
  have run: "handlePhaseChange phaseId fv s = Inr (s\<lparr>editData := Some d'\<rparr>)"
    using assms by (simp add: handlePhaseChange_def d'_def)
  have ph: "phases d' =
      map (\<lambda>ph. if phase_id ph = phaseId then set_field fv ph else ph) (phases d)"
    by (simp add: d'_def)
  have rest: "d' = d\<lparr>phases := phases d'\<rparr>"
    by (simp add: d'_def)
  have f1: "int_id d' = int_id d" and f2: "int_name d' = int_name d"
    and f3: "status d' = status d" and f4: "lastUpdated d' = lastUpdated d"
    and f5: "vehicleCount d' = vehicleCount d" and f6: "avgWaitTime d' = avgWaitTime d"
    by (simp_all add: d'_def)
  have len: "length (phases d') = length (phases d)"
    by (simp add: ph)
  have props: "get_prop f (set_field fv p) =
      (if f = field_name fv then Some (field_value fv) else get_prop f p)" for f p
    by (cases fv) (simp_all add: get_prop_def)
  have each: "\<forall>k<length (phases d).
          (phase_id (phases d ! k) \<noteq> phaseId \<longrightarrow> phases d' ! k = phases d ! k)
          \<and> (phase_id (phases d ! k) = phaseId \<longrightarrow>
               (\<forall>f. get_prop f (phases d' ! k) =
                  (if f = field_name fv then Some (field_value fv)
                   else get_prop f (phases d ! k))))"
    by (simp add: ph props)
  show ?thesis
    by (rule exI [of _ d'], intro conjI) (fact run rest f1 f2 f3 f4 f5 f6 len each)+
qed

theorem handlePhaseChange_frame_witness:
  "\<exists>d'. handlePhaseChange ''east-west'' (Field_duration 55) editing_002
            = Inr (editing_002\<lparr>editData := Some d'\<rparr>)
     \<and> int_id d' = code_units ''int-002'' \<and> status d' = ''active''
     \<and> length (phases d') = 2
     \<and> phases d' ! 0 = mk_phase ''north-south'' ''North-South'' 60 True ''green''
     \<and> get_prop ''duration'' (phases d' ! 1) = Some (JNumber 55)
     \<and> get_prop ''name'' (phases d' ! 1) = Some (JString ''East-West'')
     \<and> get_prop ''color'' (phases d' ! 1) = Some (JString ''red'')"
proof -
  let ?ns = "mk_phase ''north-south'' ''North-South'' 60 True ''green''"
  let ?ew = "mk_phase ''east-west'' ''East-West'' 50 False ''red''"
  have ps: "phases int_002 = [?ns, ?ew]"
    by (simp add: int_002_def)
  have ids: "phase_id ?ns \<noteq> ''east-west''" "phase_id ?ew = ''east-west''"
    by (simp_all add: mk_phase_def)
  from handlePhaseChange_frame [OF editing_002_draft, of "''east-west''" "Field_duration 55"]
  obtain d' where
    run: "handlePhaseChange ''east-west'' (Field_duration 55) editing_002
            = Inr (editing_002\<lparr>editData := Some d'\<rparr>)"
    and f1: "int_id d' = int_id int_002" and f3: "status d' = status int_002"
    and len: "length (phases d') = length (phases int_002)"
    and each: "\<forall>k<length (phases int_002).
          (phase_id (phases int_002 ! k) \<noteq> ''east-west'' \<longrightarrow> phases d' ! k = phases int_002 ! k)
          \<and> (phase_id (phases int_002 ! k) = ''east-west'' \<longrightarrow>
               (\<forall>f. get_prop f (phases d' ! k) =
                  (if f = field_name (Field_duration 55) then Some (field_value (Field_duration 55))
                   else get_prop f (phases int_002 ! k))))"
    by (elim exE conjE)
  have e0: "phases d' ! 0 = ?ns"
    using each [rule_format, of 0] ids by (simp add: ps)
  have e1: "get_prop f (phases d' ! 1) =
      (if f = ''duration'' then Some (JNumber 55) else get_prop f ?ew)" for f
    using each [rule_format, of 1] ids by (simp add: ps)
  have "get_prop ''duration'' (phases d' ! 1) = Some (JNumber 55)"
    using e1 [of "''duration''"] by simp
  moreover have "get_prop ''name'' (phases d' ! 1) = Some (JString ''East-West'')"
    using e1 [of "''name''"] by (simp add: get_prop_def mk_phase_def)
  moreover have "get_prop ''color'' (phases d' ! 1) = Some (JString ''red'')"
    using e1 [of "''color''"] by (simp add: get_prop_def mk_phase_def)
  moreover have "int_id d' = code_units ''int-002''" "status d' = ''active''"
    using f1 f3 by (simp_all add: int_002_def)
  moreover have "length (phases d') = 2"
    using len by (simp add: ps)
  ultimately show ?thesis
    using run e0 by (intro exI [of _ d'] conjI)
qed

section \<open>Identifiers that match nothing\<close>

text \<open>
  Claim C7, as amended. Neither handler raises an error on an identifier that matches
  nothing. A phase edit whose \<open>phaseId\<close> is the identifier of no phase of the draft returns
  the state it started from. A commit whose draft has the identifier of no committed
  intersection returns the state it started from with the dialog closed: the committed
  list and the draft are as they were, and \<open>editDialogOpen\<close> is false.
\<close>

theorem unmatched_identifier_noop:
  assumes "editData s = Some d"
  shows "(phaseId \<notin> phase_id ` set (phases d) \<longrightarrow> handlePhaseChange phaseId fv s = Inr s)
    \<and> (int_id d \<notin> int_id ` set (intersections s) \<longrightarrow>
         (\<exists>s'. handleSave s = Inr s' \<and> intersections s' = intersections s
            \<and> editData s' = editData s \<and> s' = s\<lparr>editDialogOpen := False\<rparr>))"
proof (intro conjI impI)
  assume "phaseId \<notin> phase_id ` set (phases d)"
  then have "\<forall>ph\<in>set (phases d). \<not> phase_id ph = phaseId"
    by (metis imageI)
  then have "map (\<lambda>ph. if phase_id ph = phaseId then set_field fv ph else ph) (phases d)
      = phases d"
    by (rule map_unmatched)
  moreover have "s\<lparr>editData := Some d\<rparr> = s"
    using assms by (metis tl_state.surjective tl_state.update_convs(6) tl_state.select_convs(6))
  ultimately show "handlePhaseChange phaseId fv s = Inr s"
    using assms by (simp add: handlePhaseChange_def)
next
  assume "int_id d \<notin> int_id ` set (intersections s)"
  then have "\<forall>i\<in>set (intersections s). \<not> int_id i = int_id d"
    by (metis imageI)
  then have same: "map (\<lambda>i. if int_id i = int_id d then d else i) (intersections s)
      = intersections s"
    by (rule map_unmatched)
  have "handleSave s = Inr (s\<lparr>editDialogOpen := False\<rparr>)"
    using assms by (simp add: handleSave_def same)
  then show "\<exists>s'. handleSave s = Inr s' \<and> intersections s' = intersections s
            \<and> editData s' = editData s \<and> s' = s\<lparr>editDialogOpen := False\<rparr>"
    by simp
qed

theorem unmatched_identifier_noop_witness:
  "handlePhaseChange ''nowhere'' (Field_duration 55) editing_002 = Inr editing_002
   \<and> (\<exists>s'. handleSave saving_999 = Inr s' \<and> intersections s' = mockIntersections
         \<and> editData s' = Some draft_999)"
proof -
  have "''nowhere'' \<notin> phase_id ` set (phases int_002)"
    by (simp add: int_002_def mk_phase_def)
  with unmatched_identifier_noop [OF editing_002_draft, of "''nowhere''" "Field_duration 55"]
  have a: "handlePhaseChange ''nowhere'' (Field_duration 55) editing_002 = Inr editing_002"
    by simp
  have h: "editData saving_999 = Some draft_999"
    by (simp add: saving_999_def)
  have xs: "intersections saving_999 = mockIntersections"
    by (simp add: saving_999_def editing_002_def handleEdit_def loaded_def)
  have "int_id draft_999 \<notin> int_id ` set (intersections saving_999)"
    by (simp add: xs draft_999_def mockIntersections_def
        int_001_def int_002_def int_003_def int_004_def code_units_def)
  with unmatched_identifier_noop [OF h]
  have b: "\<exists>s'. handleSave saving_999 = Inr s' \<and> intersections s' = mockIntersections
         \<and> editData s' = Some draft_999"
    by (simp add: xs h)
  from a b show ?thesis ..
qed

text \<open>
  As the claim was written, the state after the operation equals the state before, it
  fails for the commit: \<open>handleSave\<close> closes the dialog whatever the draft is, so a commit
  from the open dialog never returns the state it started from.
\<close>

theorem unmatched_commit_closes_dialog:
  "editData saving_999 = Some draft_999
   \<and> int_id draft_999 \<notin> int_id ` set (intersections saving_999)
   \<and> editDialogOpen saving_999
   \<and> handleSave saving_999 = Inr (saving_999\<lparr>editDialogOpen := False\<rparr>)
   \<and> handleSave saving_999 \<noteq> Inr saving_999"
proof -
  have h: "editData saving_999 = Some draft_999"
    by (simp add: saving_999_def)
  have xs: "intersections saving_999 = mockIntersections"
    by (simp add: saving_999_def editing_002_def handleEdit_def loaded_def)
  have ids: "int_id draft_999 \<notin> int_id ` set (intersections saving_999)"
    by (simp add: xs draft_999_def mockIntersections_def
        int_001_def int_002_def int_003_def int_004_def code_units_def)
  then have "\<forall>i\<in>set (intersections saving_999). \<not> int_id i = int_id draft_999"
    by (metis imageI)
  then have same: "map (\<lambda>i. if int_id i = int_id draft_999 then draft_999 else i)
      (intersections saving_999) = intersections saving_999"
    by (rule map_unmatched)
  have run: "handleSave saving_999 = Inr (saving_999\<lparr>editDialogOpen := False\<rparr>)"
    using h by (simp add: handleSave_def same)
  have dlg: "editDialogOpen saving_999"
    by (simp add: saving_999_def editing_002_def handleEdit_def)
  have "editDialogOpen (saving_999\<lparr>editDialogOpen := False\<rparr>) \<noteq> editDialogOpen saving_999"
    using dlg by simp
  then have "saving_999\<lparr>editDialogOpen := False\<rparr> \<noteq> saving_999"
    by metis
  then have ne: "handleSave saving_999 \<noteq> Inr saving_999"
    by (simp add: run)
  from h ids dlg run ne show ?thesis
    by (intro conjI)
qed

section \<open>The search filter keeps the matching intersections\<close>




end
